theory Spec2Isabelle
  imports Complex_Main "HOL-Library.Word" "HOL-Library.Signed_Division" "HOL-Library.Sublist"
begin

unbundle bit_operations_syntax

section \<open>The metrics screen of the node (metrics.cpp)\<close>

text \<open>
  Conventions of the embedding.
  \<^item> Every call of \<open>GetTime()\<close> is a parameter \<open>now\<close> of the modelled function: the
    clock reading (seconds, \<open>int64_t\<close>) that the call returns.
  \<^item> Signed machine integers (\<open>int\<close>, \<open>int64_t\<close>, \<open>CAmount\<close>) are \<open>int\<close>: signed
    overflow has no defined behaviour in C++, and no function below relies on it.
    Division of signed integers truncates towards zero (\<open>sdiv\<close>).
  \<^item> The value of a \<open>double\<close> is a \<open>real\<close>. Where a \<open>double\<close> is converted to an \<open>int\<close> (the
    estimate of the network height), every conversion, sum and quotient is rounded to
    the nearest double (\<open>double_round\<close>); the quotient that \<open>AtomicTimer::rate\<close> returns
    is left unrounded.
  \<^item> A lock is not modelled: each modelled function is one critical section.
\<close>

subsection \<open>AtomicCounter and AtomicTimer\<close>

text \<open>
  Modelled from the spec: the class declarations (metrics.h) are not among the sources.
  A counter is "an unsigned integer value" that only \<open>increment\<close> changes; a timer has
  \<open>activeThreadCount: uint\<close> (the field \<open>threads\<close>), the start of the open interval
  (\<open>start_time\<close>) and the accumulated duration (\<open>total_time\<close>), all zero at process start.
\<close>

type_synonym AtomicCounter = nat

definition AtomicCounter_increment :: "AtomicCounter \<Rightarrow> AtomicCounter" where
  "AtomicCounter_increment c = c + 1"

definition AtomicCounter_get :: "AtomicCounter \<Rightarrow> nat" where
  "AtomicCounter_get c = c"

record AtomicTimer =
  threads :: nat
  start_time :: int
  total_time :: int

definition AtomicTimer_init :: AtomicTimer where
  "AtomicTimer_init = \<lparr>threads = 0, start_time = 0, total_time = 0\<rparr>"

text \<open>\<open>AtomicTimer::start\<close>: the first caller records the start of the interval.\<close>

definition AtomicTimer_start :: "int \<Rightarrow> AtomicTimer \<Rightarrow> AtomicTimer" where
  "AtomicTimer_start now t =
     (let t1 = (if threads t < 1 then t\<lparr>start_time := now\<rparr> else t)
      in t1\<lparr>threads := threads t1 + 1\<rparr>)"

text \<open>\<open>AtomicTimer::stop\<close>: excess calls are ignored; the last caller out closes the
  interval. No statement of the function assigns \<open>start_time\<close>.\<close>

definition AtomicTimer_stop :: "int \<Rightarrow> AtomicTimer \<Rightarrow> AtomicTimer" where
  "AtomicTimer_stop now t =
     (if threads t > 0 then
        (let t1 = t\<lparr>threads := threads t - 1\<rparr>
         in if threads t1 < 1 then
              (let time_span = now - start_time t1
               in t1\<lparr>total_time := total_time t1 + time_span\<rparr>)
            else t1)
      else t)"

definition AtomicTimer_running :: "AtomicTimer \<Rightarrow> bool" where
  "AtomicTimer_running t = (threads t > 0)"

definition AtomicTimer_threadCount :: "AtomicTimer \<Rightarrow> nat" where
  "AtomicTimer_threadCount t = threads t"

text \<open>\<open>AtomicTimer::rate\<close>: the counter's value over the active duration, the open
  interval included while the timer runs.\<close>

definition AtomicTimer_rate :: "int \<Rightarrow> AtomicTimer \<Rightarrow> AtomicCounter \<Rightarrow> real" where
  "AtomicTimer_rate now t count =
     (let duration0 = total_time t;
          duration = (if threads t > 0 then duration0 + (now - start_time t) else duration0)
      in if duration > 0 then real (AtomicCounter_get count) / real_of_int duration else 0)"

text \<open>A history of calls on one timer, each with the clock reading it would take.\<close>

datatype timer_call = Start int | Stop int

fun clock_of :: "timer_call \<Rightarrow> int" where
  "clock_of (Start now) = now"
| "clock_of (Stop now) = now"

fun is_start :: "timer_call \<Rightarrow> bool" where
  "is_start (Start now) = True"
| "is_start (Stop now) = False"

fun timer_step :: "AtomicTimer \<Rightarrow> timer_call \<Rightarrow> AtomicTimer" where
  "timer_step t (Start now) = AtomicTimer_start now t"
| "timer_step t (Stop now) = AtomicTimer_stop now t"

definition timer_run :: "timer_call list \<Rightarrow> AtomicTimer" where
  "timer_run cs = foldl timer_step AtomicTimer_init cs"

text \<open>
  The spec's words, for comparison with the code: a start "has not yet been matched by a
  stop" when, from some point of the history on, more starts than stops were called.
\<close>

definition starts_minus_stops :: "timer_call list \<Rightarrow> int" where
  "starts_minus_stops cs =
     int (length (filter is_start cs)) - int (length (filter (\<lambda>c. \<not> is_start c) cs))"

definition unmatched_start :: "timer_call list \<Rightarrow> bool" where
  "unmatched_start cs = list_ex (\<lambda>s. 0 < starts_minus_stops s) (suffixes cs)"

text \<open>The clock never runs backwards along a history.\<close>

definition clock_monotone :: "timer_call list \<Rightarrow> bool" where
  "clock_monotone cs = sorted (map clock_of cs)"

subsection \<open>The shared state of the metrics screen\<close>

type_synonym uint256 = "256 word"

record metrics_state =
  nNodeStartTime :: int
  nNextRefresh :: int
  transactionsValidated :: AtomicCounter
  ehSolverRuns :: AtomicCounter
  solutionTargetChecks :: AtomicCounter
  minedBlocks :: AtomicCounter
  miningTimer :: AtomicTimer
  trackedBlocks :: "uint256 list"
  messageBox :: "string list"
  initMessage :: string
  loaded :: bool

definition metrics_init :: metrics_state where
  "metrics_init =
     \<lparr>nNodeStartTime = 0, nNextRefresh = 0, transactionsValidated = 0, ehSolverRuns = 0,
      solutionTargetChecks = 0, minedBlocks = 0, miningTimer = AtomicTimer_init,
      trackedBlocks = [], messageBox = [], initMessage = [], loaded = False\<rparr>"

definition TrackMinedBlock :: "uint256 \<Rightarrow> metrics_state \<Rightarrow> metrics_state" where
  "TrackMinedBlock hash s =
     (let s1 = s\<lparr>minedBlocks := AtomicCounter_increment (minedBlocks s)\<rparr>
      in s1\<lparr>trackedBlocks := trackedBlocks s1 @ [hash]\<rparr>)"

definition MarkStartTime :: "int \<Rightarrow> metrics_state \<Rightarrow> metrics_state" where
  "MarkStartTime now s = s\<lparr>nNodeStartTime := now\<rparr>"

definition GetUptime :: "int \<Rightarrow> metrics_state \<Rightarrow> int" where
  "GetUptime now s = now - nNodeStartTime s"

definition GetLocalSolPS :: "int \<Rightarrow> metrics_state \<Rightarrow> real" where
  "GetLocalSolPS now s = AtomicTimer_rate now (miningTimer s) (solutionTargetChecks s)"

text \<open>\<open>TriggerRefresh\<close>: the deadline becomes the current time. The sleep of 200 ms that
  follows changes no variable of the program and is left out.\<close>

definition TriggerRefresh :: "int \<Rightarrow> metrics_state \<Rightarrow> metrics_state" where
  "TriggerRefresh now s = s\<lparr>nNextRefresh := now\<rparr>"

subsection \<open>The message box\<close>

text \<open>
  The style flags of \<open>CClientUIInterface\<close> (ui_interface.h), the colour macros
  (ansicolor.h) and the translation function \<open>_\<close> are not among the sources: they are
  parameters of the model.
\<close>

record ui_consts =
  SECURE :: "32 word"
  MSG_ERROR :: "32 word"
  MSG_WARNING :: "32 word"
  MSG_INFORMATION :: "32 word"
  ANSI_COLOR_LRED :: string
  ANSI_COLOR_LYELLOW :: string
  ANSI_COLOR_LCYAN :: string
  ANSI_COLOR_RESET :: string
  translate :: "string \<Rightarrow> string"

text \<open>The caption chosen by the \<open>switch\<close> on the style, the SECURE flag cleared.\<close>

definition strCaption_of :: "ui_consts \<Rightarrow> string \<Rightarrow> 32 word \<Rightarrow> string" where
  "strCaption_of ui caption style =
     (let style1 = style AND NOT (SECURE ui)
      in if style1 = MSG_ERROR ui then
           translate ui (ANSI_COLOR_LRED ui @ ''Error'' @ ANSI_COLOR_RESET ui)
         else if style1 = MSG_WARNING ui then
           translate ui (ANSI_COLOR_LYELLOW ui @ ''Warning'' @ ANSI_COLOR_RESET ui)
         else if style1 = MSG_INFORMATION ui then
           translate ui (ANSI_COLOR_LCYAN ui @ ''Information'' @ ANSI_COLOR_RESET ui)
         else caption)"

text \<open>\<open>metrics_ThreadSafeMessageBox\<close>: \<open>push_back\<close> appends the line at the end of the
  list, and \<open>pop_back\<close> removes the last element of the list.\<close>

definition metrics_ThreadSafeMessageBox ::
  "ui_consts \<Rightarrow> int \<Rightarrow> string \<Rightarrow> string \<Rightarrow> 32 word \<Rightarrow> metrics_state \<Rightarrow> bool \<times> metrics_state" where
  "metrics_ThreadSafeMessageBox ui now message caption style s =
     (let strCaption = strCaption_of ui caption style;
          u1 = messageBox s @ [strCaption @ '': '' @ message];
          u2 = (if length u1 > 5 then butlast u1 else u1)
      in (False, TriggerRefresh now (s\<lparr>messageBox := u2\<rparr>)))"

definition metrics_ThreadSafeQuestion ::
  "ui_consts \<Rightarrow> int \<Rightarrow> string \<Rightarrow> string \<Rightarrow> string \<Rightarrow> 32 word \<Rightarrow> metrics_state
     \<Rightarrow> bool \<times> metrics_state" where
  "metrics_ThreadSafeQuestion ui now ignored message caption style s =
     metrics_ThreadSafeMessageBox ui now message caption style s"

definition metrics_InitMessage :: "string \<Rightarrow> metrics_state \<Rightarrow> metrics_state" where
  "metrics_InitMessage message s = s\<lparr>initMessage := message\<rparr>"

text \<open>\<open>printInitMessage\<close>, its effect on the state: the screen counts as loaded once
  the init message is the translated "Done loading". The printed text is left out.\<close>

definition printInitMessage :: "ui_consts \<Rightarrow> metrics_state \<Rightarrow> int \<times> metrics_state" where
  "printInitMessage ui s =
     (if loaded s then (0, s)
      else (let msg = initMessage s
            in if msg = translate ui ''Done loading'' then (2, s\<lparr>loaded := True\<rparr>)
               else (2, s)))"

text \<open>One posted message: the clock reading of the call and its three arguments.\<close>

record posted =
  p_now :: int
  p_message :: string
  p_caption :: string
  p_style :: "32 word"

definition post :: "ui_consts \<Rightarrow> metrics_state \<Rightarrow> posted \<Rightarrow> metrics_state" where
  "post ui s p =
     snd (metrics_ThreadSafeMessageBox ui (p_now p) (p_message p) (p_caption p) (p_style p) s)"

definition post_all :: "ui_consts \<Rightarrow> posted list \<Rightarrow> metrics_state" where
  "post_all ui ps = foldl (post ui) metrics_init ps"

definition line_of :: "ui_consts \<Rightarrow> posted \<Rightarrow> string" where
  "line_of ui p = strCaption_of ui (p_caption p) (p_style p) @ '': '' @ p_message p"

text \<open>Example values of the parameters: the flags as Bitcoin-derived nodes declare
  them, no colour codes, no translation.\<close>

definition ui_plain :: ui_consts where
  "ui_plain =
     \<lparr>SECURE = 0x40000000, MSG_ERROR = 0x10000402, MSG_WARNING = 0x10000401,
      MSG_INFORMATION = 0, ANSI_COLOR_LRED = [], ANSI_COLOR_LYELLOW = [],
      ANSI_COLOR_LCYAN = [], ANSI_COLOR_RESET = [], translate = (\<lambda>s. s)\<rparr>"

definition msg :: "string \<Rightarrow> posted" where
  "msg text = \<lparr>p_now = 0, p_message = text, p_caption = ''note'', p_style = 0x400\<rparr>"

subsection \<open>Double-precision arithmetic\<close>

text \<open>
  IEEE 754 binary64: a significand of 53 bits, the results of conversions, sums and
  quotients rounded to the nearest double, ties to the even significand; below
  \<open>2 ^ - 1022\<close> the doubles are the multiples of \<open>2 ^ - 1074\<close>. A result beyond the largest
  double has no counterpart here: with operands within \<open>int64_t\<close> none arises in the
  functions below.
\<close>

function log2_floor :: "int \<Rightarrow> int" where
  "log2_floor n = (if n < 2 then 0 else 1 + log2_floor (n div 2))"
  by auto
termination
  by (relation "measure nat") auto

declare log2_floor.simps [simp del]

text \<open>The exponent \<open>e\<close> of a real other than zero: \<open>2 ^ e \<le> \<bar>x\<bar> < 2 ^ (e + 1)\<close>.\<close>

definition binade :: "real \<Rightarrow> int" where
  "binade x =
     (if 1 \<le> \<bar>x\<bar> then log2_floor \<lfloor>\<bar>x\<bar>\<rfloor>
      else - log2_floor (\<lceil>1 / \<bar>x\<bar>\<rceil> - 1) - 1)"

definition pow2 :: "int \<Rightarrow> real" where
  "pow2 k = (if 0 \<le> k then 2 ^ nat k else 1 / 2 ^ nat (- k))"

definition round_half_even :: "real \<Rightarrow> int" where
  "round_half_even m =
     (let n = \<lfloor>m\<rfloor>; r = m - real_of_int n
      in if r < 1 / 2 then n else if 1 / 2 < r then n + 1 else if even n then n else n + 1)"

definition double_round :: "real \<Rightarrow> real" where
  "double_round x =
     (if x = 0 then 0
      else (let ulp = pow2 (max (binade x) (- 1022) - 52)
            in sgn x * real_of_int (round_half_even (\<bar>x\<bar> / ulp)) * ulp))"

text \<open>The conversion of an integer to \<open>double\<close>, and the sum of two doubles.\<close>

definition double_of_int :: "int \<Rightarrow> real" where
  "double_of_int k = double_round (real_of_int k)"

definition dadd :: "real \<Rightarrow> real \<Rightarrow> real" where
  "dadd a b = double_round (a + b)"

subsection \<open>The estimate of the network height\<close>

text \<open>
  A division whose second operand is zero has no defined behaviour in C++: it is the
  result \<open>None\<close>. \<open>CBlockIndex::nMedianTimeSpan\<close> (chain.h) is not among the sources and
  is a parameter. The conversion of a \<open>double\<close> to \<open>int\<close> truncates towards zero.
\<close>

definition idiv :: "int \<Rightarrow> int \<Rightarrow> int option" where
  "idiv a b = (if b = 0 then None else Some (a sdiv b))"

definition ddiv :: "real \<Rightarrow> real \<Rightarrow> real option" where
  "ddiv a b = (if b = 0 then None else Some (double_round (a / b)))"

definition double_to_int :: "real \<Rightarrow> int" where
  "double_to_int x = (if x < 0 then \<lceil>x\<rceil> else \<lfloor>x\<rfloor>)"

definition EstimateNetHeightInner ::
  "int \<Rightarrow> int \<Rightarrow> int \<Rightarrow> int \<Rightarrow> int \<Rightarrow> int \<Rightarrow> int \<Rightarrow> int \<Rightarrow> int option" where
  "EstimateNetHeightInner nMedianTimeSpan now height tipmediantime
       heightLastCheckpoint timeLastCheckpoint genesisTime targetSpacing =
     Option.bind
       (if height > nMedianTimeSpan then
          Option.bind (idiv (nMedianTimeSpan - 1) 2) (\<lambda>half. Some (height - (1 + half)))
        else idiv height 2)
       (\<lambda>medianHeight.
     Option.bind
       (if medianHeight > heightLastCheckpoint then
          ddiv (double_of_int (tipmediantime - timeLastCheckpoint))
               (double_of_int (medianHeight - heightLastCheckpoint))
        else
          ddiv (double_of_int (timeLastCheckpoint - genesisTime))
               (double_of_int heightLastCheckpoint))
       (\<lambda>checkpointSpacing.
     Option.bind (ddiv (dadd (double_of_int targetSpacing) checkpointSpacing) (double_of_int 2))
       (\<lambda>averageSpacing.
     Option.bind (ddiv (double_of_int (now - tipmediantime)) averageSpacing)
       (\<lambda>quotient.
     (let netheight = double_to_int (dadd (double_of_int medianHeight) quotient)
      in Option.bind (idiv (netheight + 5) 10) (\<lambda>tens. Some (tens * 10)))))))"

text \<open>The spec's words, for comparison with the code: the steps of
  \<open>estimateNetworkHeight\<close> in double arithmetic, with the total division of HOL.\<close>

definition spec_medianHeight :: "int \<Rightarrow> int \<Rightarrow> int" where
  "spec_medianHeight window localHeight =
     (if localHeight > window then localHeight - (1 + (window - 1) sdiv 2)
      else localHeight sdiv 2)"

definition spec_checkpointSpacing :: "int \<Rightarrow> int \<Rightarrow> int \<Rightarrow> int \<Rightarrow> int \<Rightarrow> real" where
  "spec_checkpointSpacing medianHeight localTipMedianTime checkpointHeight checkpointTime
       genesisTime =
     (if medianHeight > checkpointHeight then
        double_round (double_of_int (localTipMedianTime - checkpointTime)
          / double_of_int (medianHeight - checkpointHeight))
      else double_round (double_of_int (checkpointTime - genesisTime)
          / double_of_int checkpointHeight))"

definition spec_averageSpacing :: "int \<Rightarrow> real \<Rightarrow> real" where
  "spec_averageSpacing targetBlockSpacing checkpointSpacing =
     double_round (dadd (double_of_int targetBlockSpacing) checkpointSpacing / 2)"

definition spec_estimatedHeight :: "int \<Rightarrow> int \<Rightarrow> int \<Rightarrow> real \<Rightarrow> real" where
  "spec_estimatedHeight medianHeight now localTipMedianTime averageSpacing =
     dadd (double_of_int medianHeight)
       (double_round (double_of_int (now - localTipMedianTime) / averageSpacing))"

definition round10 :: "int \<Rightarrow> int" where
  "round10 h = ((h + 5) sdiv 10) * 10"

definition spec_averageSpacing_of :: "int \<Rightarrow> int \<Rightarrow> int \<Rightarrow> int \<Rightarrow> int \<Rightarrow> int \<Rightarrow> int \<Rightarrow> real" where
  "spec_averageSpacing_of window localHeight localTipMedianTime checkpointHeight
       checkpointTime genesisTime targetBlockSpacing =
     spec_averageSpacing targetBlockSpacing
       (spec_checkpointSpacing (spec_medianHeight window localHeight) localTipMedianTime
          checkpointHeight checkpointTime genesisTime)"

text \<open>The same steps with exact quotients and sums, as the formulas of the spec read
  when no arithmetic is named: the estimate before it is made an integer.\<close>

definition exact_estimatedHeight ::
  "int \<Rightarrow> int \<Rightarrow> int \<Rightarrow> int \<Rightarrow> int \<Rightarrow> int \<Rightarrow> int \<Rightarrow> int \<Rightarrow> real" where
  "exact_estimatedHeight window now localHeight localTipMedianTime checkpointHeight
       checkpointTime genesisTime targetBlockSpacing =
     (let medianHeight = spec_medianHeight window localHeight;
          checkpointSpacing =
            (if medianHeight > checkpointHeight then
               real_of_int (localTipMedianTime - checkpointTime)
                 / real_of_int (medianHeight - checkpointHeight)
             else real_of_int (checkpointTime - genesisTime) / real_of_int checkpointHeight);
          averageSpacing = (real_of_int targetBlockSpacing + checkpointSpacing) / 2
      in real_of_int medianHeight + real_of_int (now - localTipMedianTime) / averageSpacing)"

subsection \<open>The mined blocks and their reconciliation with the chain\<close>

text \<open>
  The block index and the active chain (main.h, chain.h) are not among the sources; the
  loop consults them read-only, under \<open>cs_main\<close>. They are a parameter of the model: the
  map from hashes to index entries, membership of an entry in the active chain, the
  height of the tip, the subsidy of a height and the maturity constant. An index entry
  is identified by the hash of its block.
\<close>

record CBlockIndex =
  phashBlock :: uint256
  nHeight :: int

record chain_view =
  mapBlockIndex :: "uint256 \<rightharpoonup> CBlockIndex"
  chainActive_Contains :: "CBlockIndex \<Rightarrow> bool"
  chainActive_Height :: int
  GetBlockSubsidy :: "int \<Rightarrow> int"
  COINBASE_MATURITY :: int

text \<open>The loop "Update orphans and calculate subsidies" of \<open>printMetrics\<close>: the list is
  the part from the iterator on, \<open>kept\<close> the part before it.\<close>

fun update_orphans ::
  "chain_view \<Rightarrow> int \<Rightarrow> uint256 list \<Rightarrow> uint256 list \<Rightarrow> int \<Rightarrow> int \<Rightarrow> uint256 list \<times> int \<times> int" where
  "update_orphans cv tipHeight [] kept immature mature = (kept, immature, mature)"
| "update_orphans cv tipHeight (hash # rest) kept immature mature =
     (case mapBlockIndex cv hash of
        None \<Rightarrow> update_orphans cv tipHeight rest kept immature mature
      | Some pindex \<Rightarrow>
          if chainActive_Contains cv pindex then
            (let height = nHeight pindex;
                 subsidy = GetBlockSubsidy cv height
             in if max 0 (COINBASE_MATURITY cv - (tipHeight - height)) > 0 then
                  update_orphans cv tipHeight rest (kept @ [hash]) (immature + subsidy) mature
                else
                  update_orphans cv tipHeight rest (kept @ [hash]) immature (mature + subsidy))
          else update_orphans cv tipHeight rest kept immature mature)"

record mining_summary =
  mined :: int
  orphaned :: int
  immature :: int
  mature :: int

text \<open>\<open>printMetrics\<close>, its block under \<open>mining && loaded\<close>: the numbers it reports and
  its effect on the tracked list. The printed text and the line count are left out.\<close>

definition printMetrics ::
  "chain_view \<Rightarrow> bool \<Rightarrow> metrics_state \<Rightarrow> mining_summary option \<times> metrics_state" where
  "printMetrics cv mining s =
     (if mining \<and> loaded s then
        (let tipHeight = chainActive_Height cv;
             (u, immature1, mature1) = update_orphans cv tipHeight (trackedBlocks s) [] 0 0;
             mined1 = int (AtomicCounter_get (minedBlocks s));
             orphaned1 = mined1 - int (length u)
         in (Some \<lparr>mined = mined1, orphaned = orphaned1, immature = immature1,
                    mature = mature1\<rparr>,
             s\<lparr>trackedBlocks := u\<rparr>))
      else (None, s))"

text \<open>The spec's words, for comparison with the code: an entity is on the authoritative
  best chain; its depth below the tip; its subsidy value.\<close>

definition on_best_chain :: "chain_view \<Rightarrow> uint256 \<Rightarrow> bool" where
  "on_best_chain cv hash =
     (case mapBlockIndex cv hash of None \<Rightarrow> False | Some pindex \<Rightarrow> chainActive_Contains cv pindex)"

definition depth_of :: "chain_view \<Rightarrow> uint256 \<Rightarrow> int" where
  "depth_of cv hash =
     (case mapBlockIndex cv hash of None \<Rightarrow> 0
      | Some pindex \<Rightarrow> chainActive_Height cv - nHeight pindex)"

definition subsidy_of :: "chain_view \<Rightarrow> uint256 \<Rightarrow> int" where
  "subsidy_of cv hash =
     (case mapBlockIndex cv hash of None \<Rightarrow> 0
      | Some pindex \<Rightarrow> GetBlockSubsidy cv (nHeight pindex))"

definition is_immature :: "chain_view \<Rightarrow> uint256 \<Rightarrow> bool" where
  "is_immature cv hash = (depth_of cv hash < COINBASE_MATURITY cv)"

definition discardedCount :: "metrics_state \<Rightarrow> int" where
  "discardedCount s = int (AtomicCounter_get (minedBlocks s)) - int (length (trackedBlocks s))"

subsection \<open>Histories of the whole state\<close>

text \<open>The calls of this file that change the state, in any order.\<close>

datatype metrics_event =
    EvTrackMinedBlock uint256
  | EvMarkStartTime int
  | EvTriggerRefresh int
  | EvMessageBox posted
  | EvInitMessage string
  | EvPrintInitMessage
  | EvPrintMetrics chain_view bool
  | EvMiningTimer timer_call

fun metrics_step :: "ui_consts \<Rightarrow> metrics_state \<Rightarrow> metrics_event \<Rightarrow> metrics_state" where
  "metrics_step ui s (EvTrackMinedBlock hash) = TrackMinedBlock hash s"
| "metrics_step ui s (EvMarkStartTime now) = MarkStartTime now s"
| "metrics_step ui s (EvTriggerRefresh now) = TriggerRefresh now s"
| "metrics_step ui s (EvMessageBox p) = post ui s p"
| "metrics_step ui s (EvInitMessage message) = metrics_InitMessage message s"
| "metrics_step ui s EvPrintInitMessage = snd (printInitMessage ui s)"
| "metrics_step ui s (EvPrintMetrics cv mining) = snd (printMetrics cv mining s)"
| "metrics_step ui s (EvMiningTimer c) = s\<lparr>miningTimer := timer_step (miningTimer s) c\<rparr>"

definition metrics_run :: "ui_consts \<Rightarrow> metrics_event list \<Rightarrow> metrics_state" where
  "metrics_run ui evs = foldl (metrics_step ui) metrics_init evs"

text \<open>Example values of the parameters: blocks 1 and 2 are on the active chain of
  height 200, at heights 50 and 150; block 3 is unknown to the index.\<close>

definition cv_example :: chain_view where
  "cv_example =
     \<lparr>mapBlockIndex = [1 \<mapsto> \<lparr>phashBlock = 1, nHeight = 50\<rparr>,
                       2 \<mapsto> \<lparr>phashBlock = 2, nHeight = 150\<rparr>],
      chainActive_Contains = (\<lambda>pindex. True),
      chainActive_Height = 200,
      GetBlockSubsidy = (\<lambda>height. if height < 100 then 50 else 25),
      COINBASE_MATURITY = 100\<rparr>"

definition loaded_example :: metrics_state where
  "loaded_example = metrics_init\<lparr>minedBlocks := 3, trackedBlocks := [1, 2, 3], loaded := True\<rparr>"

text \<open>The example state: three blocks mined and tracked, the screen loaded.\<close>

lemmas example_defs = cv_example_def loaded_example_def metrics_init_def on_best_chain_def
  depth_of_def subsidy_of_def is_immature_def discardedCount_def AtomicCounter_get_def

subsection \<open>The wait of the screen thread\<close>

text \<open>\<open>ThreadShowMetricsScreen\<close>, the end of a pass: the next deadline is set, and the
  thread polls it, an interruption point and a sleep of 200 ms in the loop body. The
  condition of the loop:\<close>

definition set_next_refresh :: "int \<Rightarrow> int \<Rightarrow> metrics_state \<Rightarrow> metrics_state" where
  "set_next_refresh now nRefresh s = s\<lparr>nNextRefresh := now + nRefresh\<rparr>"

definition keeps_waiting :: "int \<Rightarrow> metrics_state \<Rightarrow> bool" where
  "keeps_waiting now s = (now < nNextRefresh s)"

text \<open>
  The screen thread beside the threads that call \<open>TriggerRefresh\<close>: the shared state,
  whether the thread is inside a pass of its outer loop, and the number of passes it has
  started. The steps are the accesses to \<open>nNextRefresh\<close>, each atomic, in the order in
  which a run interleaves them, each with the clock reading it takes:
  \<^item> \<open>Trigger\<close>: some thread runs \<open>TriggerRefresh\<close> (line 150);
  \<^item> \<open>PassEnds\<close>: the screen thread, at the end of a pass, sets the deadline to the
    clock reading plus the configured interval (line 511);
  \<^item> \<open>Poll\<close>: the screen thread, waiting, evaluates the condition of its wait loop
    (line 512): it sleeps again, or leaves the loop and starts the next pass.
  The thread starts inside its first pass.
\<close>

record screen_thread =
  shared :: metrics_state
  in_pass :: bool
  passes :: nat

datatype refresh_call = Trigger int | PassEnds int int | Poll int

definition screen_init :: screen_thread where
  "screen_init = \<lparr>shared = metrics_init, in_pass = True, passes = 1\<rparr>"

fun screen_step :: "screen_thread \<Rightarrow> refresh_call \<Rightarrow> screen_thread" where
  "screen_step st (Trigger now) = st\<lparr>shared := TriggerRefresh now (shared st)\<rparr>"
| "screen_step st (PassEnds now nRefresh) =
     (if in_pass st then
        st\<lparr>shared := set_next_refresh now nRefresh (shared st), in_pass := False\<rparr>
      else st)"
| "screen_step st (Poll now) =
     (if in_pass st then st
      else if keeps_waiting now (shared st) then st
      else st\<lparr>in_pass := True, passes := passes st + 1\<rparr>)"

definition screen_run :: "refresh_call list \<Rightarrow> screen_thread" where
  "screen_run cs = foldl screen_step screen_init cs"

section \<open>Properties of the interval timer\<close>

text \<open>
  Claim C3, as amended. \<open>stop()\<close> decrements a positive thread count; at the transition
  from 1 to 0 it adds \<open>now - start_time\<close> to the accumulated duration; at any other count
  the accumulated duration is unchanged; the start of the interval is not cleared:
  \<open>stop()\<close> leaves it as it is; at count 0 the call changes no field. The timer is
  running iff the thread count is positive, and at count 0 the stored start is not read:
  whatever its value, \<open>rate()\<close> returns the same, and \<open>start()\<close> gives the same timer,
  with the start of the interval overwritten by the clock reading.
\<close>

theorem AtomicTimer_stop_effect:
  "(0 < threads t \<longrightarrow> threads (AtomicTimer_stop now t) = threads t - 1)
   \<and> (threads t = 1 \<longrightarrow>
        total_time (AtomicTimer_stop now t) = total_time t + (now - start_time t))
   \<and> (threads t \<noteq> 1 \<longrightarrow> total_time (AtomicTimer_stop now t) = total_time t)
   \<and> start_time (AtomicTimer_stop now t) = start_time t
   \<and> (threads t = 0 \<longrightarrow> AtomicTimer_stop now t = t)
   \<and> AtomicTimer_running (AtomicTimer_stop now t) = (0 < threads (AtomicTimer_stop now t))
   \<and> (threads t = 0 \<longrightarrow>
        AtomicTimer_rate later (t\<lparr>start_time := x\<rparr>) count = AtomicTimer_rate later t count
        \<and> AtomicTimer_start later (t\<lparr>start_time := x\<rparr>) = AtomicTimer_start later t
        \<and> start_time (AtomicTimer_start later t) = later)"
  by (simp add: AtomicTimer_stop_def AtomicTimer_start_def AtomicTimer_rate_def
      AtomicTimer_running_def Let_def)

theorem AtomicTimer_stop_effect_witness:
  "threads (AtomicTimer_stop 7 \<lparr>threads = 1, start_time = 3, total_time = 10\<rparr>) = 0
   \<and> total_time (AtomicTimer_stop 7 \<lparr>threads = 1, start_time = 3, total_time = 10\<rparr>) = 14
   \<and> start_time (AtomicTimer_stop 7 \<lparr>threads = 1, start_time = 3, total_time = 10\<rparr>) = 3
   \<and> threads (AtomicTimer_stop 7 \<lparr>threads = 2, start_time = 3, total_time = 10\<rparr>) = 1
   \<and> total_time (AtomicTimer_stop 7 \<lparr>threads = 2, start_time = 3, total_time = 10\<rparr>) = 10
   \<and> AtomicTimer_stop 7 \<lparr>threads = 0, start_time = 3, total_time = 10\<rparr>
       = \<lparr>threads = 0, start_time = 3, total_time = 10\<rparr>
   \<and> AtomicTimer_rate 20 \<lparr>threads = 0, start_time = 3, total_time = 10\<rparr> 5 = 1 / 2
   \<and> AtomicTimer_rate 20 \<lparr>threads = 0, start_time = 15, total_time = 10\<rparr> 5 = 1 / 2
   \<and> AtomicTimer_start 20 \<lparr>threads = 0, start_time = 3, total_time = 10\<rparr>
       = \<lparr>threads = 1, start_time = 20, total_time = 10\<rparr>
   \<and> AtomicTimer_start 20 \<lparr>threads = 0, start_time = 15, total_time = 10\<rparr>
       = \<lparr>threads = 1, start_time = 20, total_time = 10\<rparr>"
  using AtomicTimer_stop_effect [of "\<lparr>threads = 1, start_time = 3, total_time = 10\<rparr>" 7]
        AtomicTimer_stop_effect [of "\<lparr>threads = 2, start_time = 3, total_time = 10\<rparr>" 7]
        AtomicTimer_stop_effect [of "\<lparr>threads = 0, start_time = 3, total_time = 10\<rparr>" 7 20 15 5]
  by (simp add: AtomicTimer_rate_def AtomicTimer_start_def AtomicCounter_get_def)

text \<open>
  Claim C3 as stated fails: after \<open>start()\<close> at time 3 and the \<open>stop()\<close> at time 7 that
  takes the thread count from 1 to 0, the start of the interval is still 3, the value
  that \<open>start()\<close> stored. Nothing was cleared.
\<close>

theorem AtomicTimer_stop_start_time_not_cleared:
  "threads (AtomicTimer_stop 7 (AtomicTimer_start 3 AtomicTimer_init)) = 0
   \<and> start_time (AtomicTimer_stop 7 (AtomicTimer_start 3 AtomicTimer_init)) = 3
   \<and> start_time (AtomicTimer_stop 7 (AtomicTimer_start 3 AtomicTimer_init))
       = start_time (AtomicTimer_start 3 AtomicTimer_init)"
  by (simp add: AtomicTimer_stop_def AtomicTimer_start_def AtomicTimer_init_def)

text \<open>
  Claim C4. \<open>rate(counter)\<close> is the counter's value divided by the accumulated duration
  plus, while the timer runs, \<open>now - start_time\<close>, when that duration is positive, and 0
  otherwise. While the timer runs the open interval is part of the duration: with a
  positive duration the quotient is returned, and it is positive for a positive counter.
\<close>

theorem AtomicTimer_rate_spec:
  "AtomicTimer_rate now t count =
     (if 0 < total_time t + (if AtomicTimer_running t then now - start_time t else 0)
      then real (AtomicCounter_get count)
             / real_of_int (total_time t + (if AtomicTimer_running t then now - start_time t else 0))
      else 0)
   \<and> (AtomicTimer_running t \<longrightarrow> 0 < total_time t + (now - start_time t) \<longrightarrow>
        AtomicTimer_rate now t count
          = real (AtomicCounter_get count) / real_of_int (total_time t + (now - start_time t))
        \<and> (0 < AtomicCounter_get count \<longrightarrow> 0 < AtomicTimer_rate now t count))"
  by (simp add: AtomicTimer_rate_def AtomicTimer_running_def Let_def)

theorem AtomicTimer_rate_spec_witness:
  "AtomicTimer_running (AtomicTimer_start 100 AtomicTimer_init)
   \<and> AtomicTimer_rate 110 (AtomicTimer_start 100 AtomicTimer_init) (AtomicCounter_increment 0)
       = 1 / 10
   \<and> 0 < AtomicTimer_rate 110 (AtomicTimer_start 100 AtomicTimer_init) (AtomicCounter_increment 0)"
  using AtomicTimer_rate_spec [of 110 "AtomicTimer_start 100 AtomicTimer_init" "AtomicCounter_increment 0"]
  by (simp add: AtomicTimer_start_def AtomicTimer_init_def AtomicTimer_running_def
      AtomicCounter_increment_def AtomicCounter_get_def)

subsection \<open>Histories of start and stop\<close>

lemma timer_run_snoc: "timer_run (cs @ [c]) = timer_step (timer_run cs) c"
  by (simp add: timer_run_def)

lemma timer_run_Nil: "timer_run [] = AtomicTimer_init"
  by (simp add: timer_run_def)

lemma threads_step:
  "threads (timer_step t c) = (if is_start c then threads t + 1 else threads t - 1)"
  by (cases c) (simp_all add: AtomicTimer_start_def AtomicTimer_stop_def Let_def)

lemma starts_minus_stops_snoc:
  "starts_minus_stops (s @ [c]) = starts_minus_stops s + (if is_start c then 1 else - 1)"
  by (simp add: starts_minus_stops_def)

lemma starts_minus_stops_Nil: "starts_minus_stops [] = 0"
  by (simp add: starts_minus_stops_def)

text \<open>The thread count is the largest excess of starts over stops among the suffixes of
  the history: no suffix exceeds it, and one attains it.\<close>

lemma threads_suffix_bound:
  "\<forall>s \<in> set (suffixes cs). starts_minus_stops s \<le> int (threads (timer_run cs))"
proof (induction cs rule: rev_induct)
  case Nil
  show ?case by (simp add: starts_minus_stops_Nil)
next
  case (snoc c cs)
  then show ?case
    by (auto simp: suffixes_snoc timer_run_snoc threads_step starts_minus_stops_snoc
        starts_minus_stops_Nil)
qed

lemma threads_suffix_attained:
  "\<exists>s \<in> set (suffixes cs). starts_minus_stops s = int (threads (timer_run cs))"
proof (induction cs rule: rev_induct)
  case Nil
  show ?case by (simp add: starts_minus_stops_Nil timer_run_Nil AtomicTimer_init_def)
next
  case (snoc c cs)
  then obtain s where s: "s \<in> set (suffixes cs)"
      "starts_minus_stops s = int (threads (timer_run cs))"
    by blast
  show ?case
  proof (cases "\<not> is_start c \<and> threads (timer_run cs) = 0")
    case True
    then have "starts_minus_stops [] = int (threads (timer_run (cs @ [c])))"
      by (simp add: starts_minus_stops_Nil timer_run_snoc threads_step)
    then show ?thesis by (auto simp: suffixes_snoc)
  next
    case False
    then have "starts_minus_stops (s @ [c]) = int (threads (timer_run (cs @ [c])))"
      using s by (auto simp: starts_minus_stops_snoc timer_run_snoc threads_step)
    then show ?thesis using s(1) by (auto simp: suffixes_snoc)
  qed
qed

lemma running_iff_unmatched:
  "AtomicTimer_running (timer_run cs) = unmatched_start cs"
proof -
  obtain s where s: "s \<in> set (suffixes cs)"
      "starts_minus_stops s = int (threads (timer_run cs))"
    using threads_suffix_attained by blast
  show ?thesis
    unfolding AtomicTimer_running_def unmatched_start_def list_ex_iff
    using s threads_suffix_bound [of cs] by force
qed

text \<open>While the timer runs, the start of the open interval is a reading of the clock
  taken by a call of the history.\<close>

lemma start_time_step:
  "0 < threads (timer_step t c) \<Longrightarrow>
     start_time (timer_step t c) = (if threads t = 0 then clock_of c else start_time t)"
  by (cases c) (auto simp: AtomicTimer_start_def AtomicTimer_stop_def Let_def)

lemma start_time_in_history:
  "0 < threads (timer_run cs) \<Longrightarrow> start_time (timer_run cs) \<in> clock_of ` set cs"
proof (induction cs rule: rev_induct)
  case Nil
  then show ?case by (simp add: timer_run_Nil AtomicTimer_init_def)
next
  case (snoc c cs)
  then show ?case
    by (auto simp: timer_run_snoc start_time_step split: if_splits)
qed

lemma total_time_step:
  "total_time (timer_step t c) =
     (if \<not> is_start c \<and> threads t = 1 then total_time t + (clock_of c - start_time t)
      else total_time t)"
  by (cases c) (auto simp: AtomicTimer_start_def AtomicTimer_stop_def Let_def)

lemma total_time_step_mono:
  assumes "clock_monotone (cs @ [c])"
  shows "total_time (timer_run cs) \<le> total_time (timer_run (cs @ [c]))"
proof (cases "\<not> is_start c \<and> threads (timer_run cs) = 1")
  case True
  then have "start_time (timer_run cs) \<in> clock_of ` set cs"
    using start_time_in_history [of cs] by simp
  then have "start_time (timer_run cs) \<le> clock_of c"
    using assms by (auto simp: clock_monotone_def sorted_append)
  then show ?thesis using True by (simp add: timer_run_snoc total_time_step)
next
  case False
  then show ?thesis by (auto simp add: timer_run_snoc total_time_step)
qed

lemma clock_monotone_prefix: "prefix p cs \<Longrightarrow> clock_monotone cs \<Longrightarrow> clock_monotone p"
  by (auto simp: prefix_def clock_monotone_def sorted_append)

lemma total_time_mono_append:
  "clock_monotone (p @ q) \<Longrightarrow> total_time (timer_run p) \<le> total_time (timer_run (p @ q))"
proof (induction q rule: rev_induct)
  case Nil
  show ?case by simp
next
  case (snoc c q)
  have m: "clock_monotone ((p @ q) @ [c])" using snoc.prems by simp
  have "clock_monotone (p @ q)"
    using clock_monotone_prefix [of "p @ q" "p @ q @ [c]"] snoc.prems by simp
  then have "total_time (timer_run p) \<le> total_time (timer_run (p @ q))"
    by (rule snoc.IH)
  also have "\<dots> \<le> total_time (timer_run ((p @ q) @ [c]))"
    using m by (rule total_time_step_mono)
  finally show ?case by simp
qed

text \<open>
  Claim C8, as amended. For every history of \<open>start()\<close> and \<open>stop()\<close> calls from the initial
  timer: \<open>running()\<close> is true iff some start has not yet been matched by a stop, which
  is when the thread count is positive; a call that changes the accumulated duration is
  a \<open>stop()\<close> that takes the thread count from 1 to 0; and, provided the clock readings of
  the calls never decrease, the accumulated duration never decreases as the history goes
  on.
\<close>

theorem timer_history_invariants:
  "AtomicTimer_running (timer_run cs) = unmatched_start cs
   \<and> AtomicTimer_running (timer_run cs) = (0 < AtomicTimer_threadCount (timer_run cs))
   \<and> (clock_monotone (cs @ later) \<longrightarrow>
        total_time (timer_run cs) \<le> total_time (timer_run (cs @ later)))
   \<and> (total_time (timer_run (cs @ [c])) \<noteq> total_time (timer_run cs) \<longrightarrow>
        c = Stop (clock_of c) \<and> threads (timer_run cs) = 1
        \<and> threads (timer_run (cs @ [c])) = 0)"
proof (intro conjI impI)
  show "AtomicTimer_running (timer_run cs) = unmatched_start cs"
    by (rule running_iff_unmatched)
  show "AtomicTimer_running (timer_run cs) = (0 < AtomicTimer_threadCount (timer_run cs))"
    by (simp add: AtomicTimer_running_def AtomicTimer_threadCount_def)
next
  assume "clock_monotone (cs @ later)"
  then show "total_time (timer_run cs) \<le> total_time (timer_run (cs @ later))"
    by (rule total_time_mono_append)
next
  assume ch: "total_time (timer_run (cs @ [c])) \<noteq> total_time (timer_run cs)"
  then have *: "\<not> is_start c \<and> threads (timer_run cs) = 1"
    by (auto simp: timer_run_snoc total_time_step split: if_splits)
  then show "c = Stop (clock_of c)" by (cases c) simp_all
  show "threads (timer_run cs) = 1" using * by simp
  show "threads (timer_run (cs @ [c])) = 0" using * by (simp add: timer_run_snoc threads_step)
qed

theorem timer_history_invariants_witness:
  "clock_monotone ([Start 1, Start 2, Stop 5] @ [Stop 9])
   \<and> AtomicTimer_running (timer_run [Start 1, Start 2, Stop 5])
   \<and> unmatched_start [Start 1, Start 2, Stop 5]
   \<and> total_time (timer_run [Start 1, Start 2, Stop 5]) = 0
   \<and> total_time (timer_run ([Start 1, Start 2, Stop 5] @ [Stop 9])) = 8
   \<and> threads (timer_run [Start 1, Start 2, Stop 5]) = 1
   \<and> threads (timer_run ([Start 1, Start 2, Stop 5] @ [Stop 9])) = 0"
  using timer_history_invariants [of "[Start 1, Start 2, Stop 5]" "[Stop 9]" "Stop 9"]
  by (simp add: clock_monotone_def timer_run_def AtomicTimer_init_def AtomicTimer_start_def
      AtomicTimer_stop_def AtomicTimer_running_def)

text \<open>
  Claim C8 as stated fails when the clock runs backwards between the start that opens an
  interval and the stop that closes it: the accumulated duration decreases.
\<close>

theorem total_time_decreases_on_backward_clock:
  "total_time (timer_run [Start 10, Stop 5]) < total_time (timer_run [Start 10])"
  by (simp add: timer_run_def AtomicTimer_init_def AtomicTimer_start_def AtomicTimer_stop_def)

section \<open>Properties of the message box\<close>

lemma messageBox_post:
  "messageBox (post ui s p) =
     (if length (messageBox s) \<ge> 5 then messageBox s else messageBox s @ [line_of ui p])"
  by (simp add: post_def metrics_ThreadSafeMessageBox_def TriggerRefresh_def line_of_def Let_def)

lemma post_all_snoc: "post_all ui (ps @ [p]) = post ui (post_all ui ps) p"
  by (simp add: post_all_def)

text \<open>The box holds the first five lines ever posted: at most five, and never a later
  one.\<close>

lemma messageBox_post_all:
  "messageBox (post_all ui ps) = take 5 (map (line_of ui) ps)"
proof (induction ps rule: rev_induct)
  case Nil
  show ?case by (simp add: post_all_def metrics_init_def)
next
  case (snoc p ps)
  show ?case
    by (simp add: post_all_snoc messageBox_post snoc.IH min_def)
qed

lemma messageBox_bound: "length (messageBox (post_all ui ps)) \<le> 5"
  by (simp add: messageBox_post_all)

text \<open>
  Claim C1, evaluated on six posted messages. The box then holds the five oldest
  messages: the sixth, the newest, is the one removed, and what the claim promises (the
  five most recent, the oldest evicted) is not what the box holds.
\<close>

theorem messageBox_sixth_message_dropped:
  "messageBox (post_all ui_plain
      [msg ''m1'', msg ''m2'', msg ''m3'', msg ''m4'', msg ''m5'', msg ''m6''])
     = [''note: m1'', ''note: m2'', ''note: m3'', ''note: m4'', ''note: m5'']
   \<and> messageBox (post_all ui_plain
      [msg ''m1'', msg ''m2'', msg ''m3'', msg ''m4'', msg ''m5'', msg ''m6''])
     \<noteq> [''note: m2'', ''note: m3'', ''note: m4'', ''note: m5'', ''note: m6'']"
  by (simp add: post_all_def post_def metrics_ThreadSafeMessageBox_def TriggerRefresh_def
      metrics_init_def Let_def strCaption_of_def msg_def ui_plain_def)

section \<open>Properties of the estimate of the network height\<close>

subsection \<open>Rounding to a double\<close>

lemma log2_floor_numeral:
  "log2_floor (numeral k) =
     (if (numeral k :: int) < 2 then 0 else 1 + log2_floor (numeral k div 2))"
  "log2_floor 0 = 0" "log2_floor 1 = 0"
  by (simp_all add: log2_floor.simps)

lemmas dbl_defs = double_round_def binade_def pow2_def round_half_even_def double_of_int_def
  dadd_def log2_floor_numeral

lemma log2_floor_nonneg: "0 \<le> log2_floor n"
  by (induction n rule: log2_floor.induct) (simp add: log2_floor.simps)

lemma log2_floor_le: "1 \<le> n \<Longrightarrow> 2 ^ nat (log2_floor n) \<le> n"
proof (induction n rule: log2_floor.induct)
  case (1 n)
  show ?case
  proof (cases "n < 2")
    case True
    then show ?thesis using "1.prems" by (simp add: log2_floor.simps)
  next
    case False
    then have ih: "2 ^ nat (log2_floor (n div 2)) \<le> n div 2"
      using "1.IH" by simp
    have "log2_floor n = 1 + log2_floor (n div 2)"
      using False by (simp add: log2_floor.simps)
    then have "(2::int) ^ nat (log2_floor n) = 2 * 2 ^ nat (log2_floor (n div 2))"
      using log2_floor_nonneg [of "n div 2"] by (simp add: nat_add_distrib)
    also have "\<dots> \<le> 2 * (n div 2)" using ih by simp
    also have "\<dots> \<le> n" by simp
    finally show ?thesis .
  qed
qed

lemma pow2_pos: "0 < pow2 k"
  by (simp add: pow2_def)

lemma pow2_le: "0 \<le> e \<Longrightarrow> pow2 (e - 52) \<le> 2 ^ nat e"
proof (cases "0 \<le> e - 52")
  case True
  assume "0 \<le> e"
  have "(2::real) ^ nat (e - 52) \<le> 2 ^ nat e"
    by (rule power_increasing) (use True in auto)
  then show ?thesis using True by (simp add: pow2_def)
next
  case False
  have "1 / (2::real) ^ nat (- (e - 52)) \<le> 1" by simp
  also have "\<dots> \<le> 2 ^ nat e" by simp
  finally show ?thesis using False by (simp add: pow2_def)
qed

lemma round_half_even_pos: "1 \<le> m \<Longrightarrow> 1 \<le> round_half_even m"
proof -
  assume "1 \<le> m"
  then have "1 \<le> \<lfloor>m\<rfloor>" by linarith
  then show ?thesis by (simp add: round_half_even_def Let_def)
qed

text \<open>A real of magnitude 1 or more is not rounded to zero; so an integer other than
  zero is not converted to zero.\<close>

lemma double_round_nonzero:
  assumes "1 \<le> \<bar>x\<bar>"
  shows "double_round x \<noteq> 0"
proof -
  define e where "e = binade x"
  have fl: "1 \<le> \<lfloor>\<bar>x\<bar>\<rfloor>" using assms by linarith
  have e: "e = log2_floor \<lfloor>\<bar>x\<bar>\<rfloor>" using assms by (simp add: e_def binade_def)
  then have e0: "0 \<le> e" by (simp add: log2_floor_nonneg)
  have "(2::int) ^ nat e \<le> \<lfloor>\<bar>x\<bar>\<rfloor>" unfolding e using fl by (rule log2_floor_le)
  then have "real_of_int (2 ^ nat e) \<le> real_of_int \<lfloor>\<bar>x\<bar>\<rfloor>"
    by (simp only: of_int_le_iff)
  also have "\<dots> \<le> \<bar>x\<bar>" by (rule of_int_floor_le)
  finally have "(2::real) ^ nat e \<le> \<bar>x\<bar>" by simp
  then have "pow2 (e - 52) \<le> \<bar>x\<bar>" using pow2_le [OF e0] by linarith
  then have "1 \<le> \<bar>x\<bar> / pow2 (e - 52)"
    using pow2_pos [of "e - 52"] by (simp add: le_divide_eq)
  then have "1 \<le> round_half_even (\<bar>x\<bar> / pow2 (e - 52))" by (rule round_half_even_pos)
  moreover have "x \<noteq> 0" using assms by auto
  moreover have "max e (- 1022) = e" using e0 by simp
  ultimately show ?thesis
    using pow2_pos [of "e - 52"]
    by (simp add: double_round_def Let_def e_def [symmetric] sgn_if)
qed

lemma double_of_int_eq_0_iff: "double_of_int k = 0 \<longleftrightarrow> k = 0"
proof
  assume z: "double_of_int k = 0"
  show "k = 0"
  proof (rule ccontr)
    assume "k \<noteq> 0"
    then have "1 \<le> \<bar>k\<bar>" by arith
    then have "real_of_int 1 \<le> real_of_int \<bar>k\<bar>" by (simp only: of_int_le_iff)
    then have "1 \<le> \<bar>real_of_int k\<bar>" by simp
    then show False using double_round_nonzero z by (simp add: double_of_int_def)
  qed
next
  assume "k = 0"
  then show "double_of_int k = 0" by (simp add: double_of_int_def double_round_def)
qed

lemma double_of_int_2: "double_of_int 2 = 2"
  by (simp add: dbl_defs Let_def)

text \<open>The conversion to \<open>int\<close> gives the integer part: the integer of the same sign
  whose magnitude is the largest not above the magnitude of the double.\<close>

lemma double_to_int_trunc:
  "\<bar>real_of_int (double_to_int x)\<bar> \<le> \<bar>x\<bar>
   \<and> \<bar>x\<bar> < \<bar>real_of_int (double_to_int x)\<bar> + 1
   \<and> 0 \<le> real_of_int (double_to_int x) * x"
proof (cases "x < 0")
  case True
  then have c: "\<lceil>x\<rceil> \<le> 0" by (simp add: ceiling_le_zero)
  have "real_of_int \<lceil>x\<rceil> < x + 1" by linarith
  moreover have "x \<le> real_of_int \<lceil>x\<rceil>" by linarith
  moreover have "real_of_int \<lceil>x\<rceil> \<le> 0" using c by simp
  ultimately show ?thesis using True
    by (simp add: double_to_int_def mult_nonpos_nonpos)
next
  case False
  then have "0 \<le> \<lfloor>x\<rfloor>" by simp
  moreover have "real_of_int \<lfloor>x\<rfloor> \<le> x" by linarith
  moreover have "x < real_of_int \<lfloor>x\<rfloor> + 1" by linarith
  ultimately show ?thesis using False by (simp add: double_to_int_def)
qed

subsection \<open>The function and the steps of the spec\<close>

text \<open>The function returns no value exactly when the checkpoint height is the divisor
  and is zero, or the average spacing is zero; otherwise it returns the rounded
  estimate of the spec, computed in double arithmetic.\<close>

lemma EstimateNetHeightInner_eq:
  "EstimateNetHeightInner w now h tip hlc tlc gen ts =
     (if spec_medianHeight w h \<le> hlc \<and> hlc = 0 then None
      else if spec_averageSpacing_of w h tip hlc tlc gen ts = 0 then None
      else Some (round10 (double_to_int
                   (spec_estimatedHeight (spec_medianHeight w h) now tip
                      (spec_averageSpacing_of w h tip hlc tlc gen ts)))))"
  by (simp add: EstimateNetHeightInner_def idiv_def ddiv_def Let_def spec_medianHeight_def
      spec_averageSpacing_of_def spec_averageSpacing_def spec_checkpointSpacing_def
      spec_estimatedHeight_def round10_def double_of_int_eq_0_iff double_of_int_2)

lemmas est_defs = spec_averageSpacing_of_def spec_averageSpacing_def spec_checkpointSpacing_def
  spec_medianHeight_def spec_estimatedHeight_def round10_def double_to_int_def
  signed_divide_int_def

text \<open>
  Claim C5, as amended. Where no divisor is zero, \<open>EstimateNetHeightInner\<close> returns
  \<open>((n + 5) / 10) * 10\<close>, a multiple of 10, for the integer part \<open>n\<close> of the estimate that
  the steps of the spec give when every conversion, quotient and sum of them is a
  double-precision operation, rounded to the nearest double: the median height, the
  checkpoint spacing on the side of the checkpoint where the median height lies, its
  average with the target spacing, and the median height plus the elapsed time over the
  average spacing.
\<close>

theorem EstimateNetHeightInner_spec:
  assumes "spec_medianHeight w h \<le> hlc \<longrightarrow> hlc \<noteq> 0"
    and "spec_averageSpacing_of w h tip hlc tlc gen ts \<noteq> 0"
  shows "\<exists>n. EstimateNetHeightInner w now h tip hlc tlc gen ts = Some (((n + 5) sdiv 10) * 10)
       \<and> \<bar>real_of_int n\<bar>
            \<le> \<bar>spec_estimatedHeight (spec_medianHeight w h) now tip
                 (spec_averageSpacing ts
                    (spec_checkpointSpacing (spec_medianHeight w h) tip hlc tlc gen))\<bar>
       \<and> \<bar>spec_estimatedHeight (spec_medianHeight w h) now tip
                 (spec_averageSpacing ts
                    (spec_checkpointSpacing (spec_medianHeight w h) tip hlc tlc gen))\<bar>
            < \<bar>real_of_int n\<bar> + 1
       \<and> 0 \<le> real_of_int n
               * spec_estimatedHeight (spec_medianHeight w h) now tip
                   (spec_averageSpacing ts
                      (spec_checkpointSpacing (spec_medianHeight w h) tip hlc tlc gen))
       \<and> 10 dvd ((n + 5) sdiv 10) * 10"
proof -
  let ?e = "spec_estimatedHeight (spec_medianHeight w h) now tip
              (spec_averageSpacing ts
                 (spec_checkpointSpacing (spec_medianHeight w h) tip hlc tlc gen))"
  have "EstimateNetHeightInner w now h tip hlc tlc gen ts = Some (round10 (double_to_int ?e))"
    using assms by (auto simp add: EstimateNetHeightInner_eq spec_averageSpacing_of_def)
  then show ?thesis
    using double_to_int_trunc [of ?e]
    by (intro exI [of _ "double_to_int ?e"]) (simp add: round10_def)
qed

text \<open>Four runs. The example of the spec: local height 100 above the checkpoint at
  height 50, an average spacing of 150 and 300 seconds since the median time of the tip
  give 94 + 2, and 100 is returned; the same with the checkpoint at height 200, above
  the median height. Local height 20, checkpoint at height 1 four seconds before the
  tip, 6839 seconds elapsed: the doubles give 105 - 2 ^ - 46, its integer part is 104
  and 100 is returned. Local height 1 and a clock 2625 seconds behind the tip: the
  estimate is - 17.5, its integer part is - 17 and - 10 is returned.\<close>

theorem EstimateNetHeightInner_spec_witness:
  "spec_medianHeight 11 100 = 94
   \<and> spec_averageSpacing_of 11 100 6600 50 0 (- 100) 150 = 150
   \<and> EstimateNetHeightInner 11 6900 100 6600 50 0 (- 100) 150 = Some 100
   \<and> spec_averageSpacing_of 11 100 6600 200 30000 0 150 = 150
   \<and> EstimateNetHeightInner 11 6900 100 6600 200 30000 0 150 = Some 100
   \<and> spec_estimatedHeight (spec_medianHeight 11 20) 7843 1004
        (spec_averageSpacing_of 11 20 1004 1 1000 0 150) = 105 - 1 / 2 ^ 46
   \<and> EstimateNetHeightInner 11 7843 20 1004 1 1000 0 150 = Some 100
   \<and> spec_estimatedHeight (spec_medianHeight 11 1) 7375 10000
        (spec_averageSpacing_of 11 1 10000 50 7500 0 150) = - 35 / 2
   \<and> EstimateNetHeightInner 11 7375 1 10000 50 7500 0 150 = Some (- 10)"
  using EstimateNetHeightInner_spec [of 11 100 50 6600 0 "- 100" 150 6900]
        EstimateNetHeightInner_spec [of 11 100 200 6600 30000 0 150 6900]
        EstimateNetHeightInner_spec [of 11 20 1 1004 1000 0 150 7843]
        EstimateNetHeightInner_spec [of 11 1 50 10000 7500 0 150 7375]
  by (simp add: EstimateNetHeightInner_eq est_defs dbl_defs Let_def)

text \<open>
  Claim C5 as stated fails when the formulas are read with exact quotients. Local height
  20, the checkpoint at height 1 and time 1000, the median time of the tip 1004, target
  spacing 150 and the clock at 7843: the median height is 14, the average spacing
  977 / 13, and 6839 seconds over it are 91, so the estimate is 105 and its rounding
  \<open>((105 + 5) / 10) * 10\<close> is 110. The function returns 100.
\<close>

theorem EstimateNetHeightInner_differs_from_exact:
  "exact_estimatedHeight 11 7843 20 1004 1 1000 0 150 = 105
   \<and> round10 105 = 110
   \<and> EstimateNetHeightInner 11 7843 20 1004 1 1000 0 150 = Some 100"
  by (simp add: EstimateNetHeightInner_eq exact_estimatedHeight_def est_defs dbl_defs Let_def)

text \<open>
  Claim C9. Under the documented precondition (a checkpoint height of at least 1 and an
  average spacing other than zero) no division of \<open>EstimateNetHeightInner\<close> has a zero
  divisor: the function returns a value. The function has no guard of its own: with a
  checkpoint height of 0 at or above the median height, and with an average spacing of
  zero, it runs into the division by zero.
\<close>

theorem EstimateNetHeightInner_divisors:
  "(1 \<le> hlc \<and> spec_averageSpacing_of w h tip hlc tlc gen ts \<noteq> 0 \<longrightarrow>
      (\<exists>r. EstimateNetHeightInner w now h tip hlc tlc gen ts = Some r))
   \<and> (spec_medianHeight w h \<le> 0 \<longrightarrow>
        EstimateNetHeightInner w now h tip 0 tlc gen ts = None)
   \<and> (spec_averageSpacing_of w h tip hlc tlc gen ts = 0 \<longrightarrow>
        EstimateNetHeightInner w now h tip hlc tlc gen ts = None)"
  by (simp add: EstimateNetHeightInner_eq)

theorem EstimateNetHeightInner_divisors_witness:
  "(1::int) \<le> 50 \<and> spec_averageSpacing_of 11 100 6600 50 0 (- 100) 150 \<noteq> 0
   \<and> (\<exists>r. EstimateNetHeightInner 11 6900 100 6600 50 0 (- 100) 150 = Some r)
   \<and> spec_medianHeight 11 1 \<le> 0
   \<and> EstimateNetHeightInner 11 6900 1 6600 0 0 (- 100) 150 = None
   \<and> spec_averageSpacing_of 11 100 6600 50 0 (- 100) (- 150) = 0
   \<and> EstimateNetHeightInner 11 6900 100 6600 50 0 (- 100) (- 150) = None"
  using EstimateNetHeightInner_divisors [of 50 11 100 6600 0 "- 100" 150 6900]
        EstimateNetHeightInner_divisors [of 0 11 1 6600 0 "- 100" 150 6900]
        EstimateNetHeightInner_divisors [of 50 11 100 6600 0 "- 100" "- 150" 6900]
  by (simp add: est_defs dbl_defs Let_def)

section \<open>Properties of the reconciliation of the mined blocks\<close>

text \<open>The loop keeps the hashes on the best chain, in their order, and adds the subsidy
  of each to one of the two sums.\<close>

lemma update_orphans_eq:
  "update_orphans cv (chainActive_Height cv) xs kept imm mat =
     (kept @ filter (on_best_chain cv) xs,
      imm + sum_list (map (subsidy_of cv) (filter (is_immature cv) (filter (on_best_chain cv) xs))),
      mat + sum_list (map (subsidy_of cv)
              (filter (\<lambda>h. \<not> is_immature cv h) (filter (on_best_chain cv) xs))))"
proof (induction xs arbitrary: kept imm mat)
  case Nil
  show ?case by simp
next
  case (Cons hash rest)
  show ?case
  proof (cases "mapBlockIndex cv hash")
    case None
    then show ?thesis by (simp add: Cons.IH on_best_chain_def)
  next
    case (Some pindex)
    then show ?thesis
      by (simp add: Cons.IH on_best_chain_def is_immature_def depth_of_def subsidy_of_def Let_def)
  qed
qed

lemma printMetrics_eq:
  "mining \<Longrightarrow> loaded s \<Longrightarrow>
   printMetrics cv mining s =
     (Some \<lparr>mined = int (minedBlocks s),
            orphaned = int (minedBlocks s)
              - int (length (filter (on_best_chain cv) (trackedBlocks s))),
            immature = sum_list (map (subsidy_of cv)
                         (filter (is_immature cv) (filter (on_best_chain cv) (trackedBlocks s)))),
            mature = sum_list (map (subsidy_of cv)
                         (filter (\<lambda>h. \<not> is_immature cv h)
                            (filter (on_best_chain cv) (trackedBlocks s))))\<rparr>,
      s\<lparr>trackedBlocks := filter (on_best_chain cv) (trackedBlocks s)\<rparr>)"
  by (simp add: printMetrics_def update_orphans_eq AtomicCounter_get_def Let_def)

lemma printMetrics_skip: "\<not> (mining \<and> loaded s) \<Longrightarrow> printMetrics cv mining s = (None, s)"
  by (auto simp add: printMetrics_def)

text \<open>
  Claim C2. One pass (mining, the screen loaded) keeps exactly the tracked entities that
  are in the index and on the best chain, in their order, and changes nothing else of
  the state; the immature value is the sum of the subsidies of the kept entities whose
  depth \<open>tipHeight - height\<close> is below the maturity threshold, the mature value the sum
  of the others. For a list \<open>[A, B, C]\<close> with \<open>A\<close> on the chain deeper than the threshold,
  \<open>B\<close> on the chain less deep than the threshold and \<open>C\<close> absent from the index: the
  list becomes \<open>[A, B]\<close>, the mature value is the subsidy of \<open>A\<close>, the immature value the
  subsidy of \<open>B\<close>, and the discarded count is one more than before the pass.
\<close>

theorem printMetrics_reconciles:
  assumes "mining" and "loaded s"
  shows "\<exists>sm s'. printMetrics cv mining s = (Some sm, s')
     \<and> s' = s\<lparr>trackedBlocks := filter (on_best_chain cv) (trackedBlocks s)\<rparr>
     \<and> immature sm = sum_list (map (subsidy_of cv)
                         (filter (is_immature cv) (trackedBlocks s')))
     \<and> mature sm = sum_list (map (subsidy_of cv)
                         (filter (\<lambda>h. \<not> is_immature cv h) (trackedBlocks s')))
     \<and> (\<forall>A B C. trackedBlocks s = [A, B, C]
           \<and> on_best_chain cv A \<and> COINBASE_MATURITY cv < depth_of cv A
           \<and> on_best_chain cv B \<and> depth_of cv B < COINBASE_MATURITY cv
           \<and> mapBlockIndex cv C = None \<longrightarrow>
         trackedBlocks s' = [A, B] \<and> mature sm = subsidy_of cv A
           \<and> immature sm = subsidy_of cv B \<and> orphaned sm = discardedCount s + 1)"
  using assms
  by (auto simp add: printMetrics_eq is_immature_def on_best_chain_def discardedCount_def
      AtomicCounter_get_def)

theorem printMetrics_reconciles_witness:
  "loaded loaded_example \<and> trackedBlocks loaded_example = [1, 2, 3]
   \<and> on_best_chain cv_example 1 \<and> COINBASE_MATURITY cv_example < depth_of cv_example 1
   \<and> on_best_chain cv_example 2 \<and> depth_of cv_example 2 < COINBASE_MATURITY cv_example
   \<and> mapBlockIndex cv_example 3 = None
   \<and> printMetrics cv_example True loaded_example
       = (Some \<lparr>mined = 3, orphaned = 1, immature = 25, mature = 50\<rparr>,
          loaded_example\<lparr>trackedBlocks := [1, 2]\<rparr>)
   \<and> subsidy_of cv_example 1 = 50 \<and> subsidy_of cv_example 2 = 25
   \<and> discardedCount loaded_example = 0"
  using printMetrics_reconciles [of True loaded_example cv_example]
  by (simp add: example_defs printMetrics_def Let_def)

text \<open>
  Claim C7. After a pass the reported orphaned count is the lifetime counter of mined
  blocks, which the pass does not change, minus the size of the tracked list as the pass
  leaves it; the list is pruned of the entities that are not on the best chain and of no
  other, whatever the depth of those that are.
\<close>

theorem printMetrics_orphaned:
  assumes "mining" and "loaded s"
  shows "\<exists>sm s'. printMetrics cv mining s = (Some sm, s')
     \<and> mined sm = int (AtomicCounter_get (minedBlocks s))
     \<and> orphaned sm = mined sm - int (length (trackedBlocks s'))
     \<and> orphaned sm = discardedCount s'
     \<and> minedBlocks s' = minedBlocks s
     \<and> trackedBlocks s' = filter (on_best_chain cv) (trackedBlocks s)"
  using assms by (simp add: printMetrics_eq AtomicCounter_get_def discardedCount_def)

theorem printMetrics_orphaned_witness:
  "loaded loaded_example
   \<and> fst (printMetrics cv_example True loaded_example)
       = Some \<lparr>mined = 3, orphaned = 1, immature = 25, mature = 50\<rparr>
   \<and> minedBlocks (snd (printMetrics cv_example True loaded_example)) = 3
   \<and> length (trackedBlocks (snd (printMetrics cv_example True loaded_example))) = 2"
  using printMetrics_orphaned [of True loaded_example cv_example]
  by (simp add: example_defs printMetrics_def Let_def)

subsection \<open>Every reachable state\<close>

lemma step_counter_mono: "minedBlocks s \<le> minedBlocks (metrics_step ui s ev)"
  by (cases ev)
     (simp_all add: TrackMinedBlock_def MarkStartTime_def TriggerRefresh_def post_def
        metrics_ThreadSafeMessageBox_def metrics_InitMessage_def printInitMessage_def
        printMetrics_def AtomicCounter_increment_def Let_def split: prod.splits)

lemma step_list_bound:
  "length (trackedBlocks s) \<le> minedBlocks s \<Longrightarrow>
   length (trackedBlocks (metrics_step ui s ev)) \<le> minedBlocks (metrics_step ui s ev)"
proof (cases ev)
  case (EvPrintMetrics cv mining)
  assume a: "length (trackedBlocks s) \<le> minedBlocks s"
  show ?thesis
  proof (cases "mining \<and> loaded s")
    case True
    have "length (filter (on_best_chain cv) (trackedBlocks s)) \<le> length (trackedBlocks s)"
      by simp
    then have "length (filter (on_best_chain cv) (trackedBlocks s)) \<le> minedBlocks s"
      using a by (rule order_trans)
    then show ?thesis using True EvPrintMetrics by (simp add: printMetrics_eq)
  next
    case False
    then show ?thesis using a EvPrintMetrics by (simp add: printMetrics_skip)
  qed
qed (simp_all add: TrackMinedBlock_def MarkStartTime_def TriggerRefresh_def post_def
        metrics_ThreadSafeMessageBox_def metrics_InitMessage_def printInitMessage_def
        AtomicCounter_increment_def Let_def)

lemma metrics_run_snoc: "metrics_run ui (evs @ [ev]) = metrics_step ui (metrics_run ui evs) ev"
  by (simp add: metrics_run_def)

lemma run_list_bound:
  "length (trackedBlocks (metrics_run ui evs)) \<le> minedBlocks (metrics_run ui evs)"
proof (induction evs rule: rev_induct)
  case Nil
  show ?case by (simp add: metrics_run_def metrics_init_def)
next
  case (snoc ev evs)
  then show ?case by (simp add: metrics_run_snoc step_list_bound)
qed

text \<open>
  Claim C10. In every state reached from the initial one by the calls of this file, the
  tracked list is no longer than the counter of mined blocks says, so the discarded
  count is not negative, no call makes the counter smaller, and a pass from such a state
  reports an orphaned count that is not negative.
\<close>

theorem tracked_never_exceeds_mined:
  "length (trackedBlocks (metrics_run ui evs))
       \<le> AtomicCounter_get (minedBlocks (metrics_run ui evs))
   \<and> 0 \<le> discardedCount (metrics_run ui evs)
   \<and> AtomicCounter_get (minedBlocks (metrics_run ui evs))
        \<le> AtomicCounter_get (minedBlocks (metrics_run ui (evs @ [ev])))
   \<and> (\<forall>cv mining sm s'. printMetrics cv mining (metrics_run ui evs) = (Some sm, s') \<longrightarrow>
         0 \<le> orphaned sm)"
proof (intro conjI allI impI)
  show 1: "length (trackedBlocks (metrics_run ui evs))
      \<le> AtomicCounter_get (minedBlocks (metrics_run ui evs))"
    by (simp add: AtomicCounter_get_def run_list_bound)
  then show "0 \<le> discardedCount (metrics_run ui evs)"
    by (simp add: discardedCount_def)
  show "AtomicCounter_get (minedBlocks (metrics_run ui evs))
        \<le> AtomicCounter_get (minedBlocks (metrics_run ui (evs @ [ev])))"
    by (simp add: AtomicCounter_get_def metrics_run_snoc step_counter_mono)
next
  fix cv mining sm s'
  assume p: "printMetrics cv mining (metrics_run ui evs) = (Some sm, s')"
  then have ml: "mining \<and> loaded (metrics_run ui evs)"
    by (auto simp: printMetrics_def split: if_splits)
  have "length (filter (on_best_chain cv) (trackedBlocks (metrics_run ui evs)))
      \<le> length (trackedBlocks (metrics_run ui evs))" by simp
  also have "\<dots> \<le> minedBlocks (metrics_run ui evs)" by (rule run_list_bound)
  finally show "0 \<le> orphaned sm"
    using p ml by (auto simp add: printMetrics_eq)
qed

theorem tracked_never_exceeds_mined_witness:
  "length (trackedBlocks (metrics_run ui_plain
      [EvInitMessage ''Done loading'', EvPrintInitMessage, EvTrackMinedBlock 1,
       EvTrackMinedBlock 2, EvTrackMinedBlock 3, EvPrintMetrics cv_example True])) = 2
   \<and> AtomicCounter_get (minedBlocks (metrics_run ui_plain
      [EvInitMessage ''Done loading'', EvPrintInitMessage, EvTrackMinedBlock 1,
       EvTrackMinedBlock 2, EvTrackMinedBlock 3, EvPrintMetrics cv_example True])) = 3
   \<and> printMetrics cv_example True (metrics_run ui_plain
      [EvInitMessage ''Done loading'', EvPrintInitMessage, EvTrackMinedBlock 1,
       EvTrackMinedBlock 2, EvTrackMinedBlock 3, EvPrintMetrics cv_example True])
      = (Some \<lparr>mined = 3, orphaned = 1, immature = 25, mature = 50\<rparr>,
         metrics_run ui_plain
      [EvInitMessage ''Done loading'', EvPrintInitMessage, EvTrackMinedBlock 1,
       EvTrackMinedBlock 2, EvTrackMinedBlock 3, EvPrintMetrics cv_example True])"
  using tracked_never_exceeds_mined [of ui_plain
      "[EvInitMessage ''Done loading'', EvPrintInitMessage, EvTrackMinedBlock 1,
       EvTrackMinedBlock 2, EvTrackMinedBlock 3, EvPrintMetrics cv_example True]"]
  by (simp add: metrics_run_def example_defs printMetrics_def Let_def ui_plain_def
      metrics_InitMessage_def printInitMessage_def TrackMinedBlock_def
      AtomicCounter_increment_def)

section \<open>The deadline of the screen thread\<close>

text \<open>Once \<open>TriggerRefresh\<close> has stored the current time, the condition of the wait loop
  is false at every reading of the clock that is not earlier, however long the
  configured interval was: but only while the screen thread does not store a deadline
  of its own afterwards.\<close>

lemma TriggerRefresh_ends_wait:
  "now \<le> later \<Longrightarrow>
     \<not> keeps_waiting later (TriggerRefresh now (set_next_refresh before nRefresh s))"
  by (simp add: keeps_waiting_def TriggerRefresh_def set_next_refresh_def)

lemma TriggerRefresh_overwritten:
  "later < passEnd + nRefresh \<Longrightarrow>
     keeps_waiting later (set_next_refresh passEnd nRefresh (TriggerRefresh now s))"
  by (simp add: keeps_waiting_def TriggerRefresh_def set_next_refresh_def)

lemmas screen_defs = screen_run_def screen_init_def keeps_waiting_def TriggerRefresh_def
  set_next_refresh_def metrics_init_def

text \<open>
  Claim C6, evaluated on a run in which \<open>TriggerRefresh\<close> is called, at clock reading
  1000, while the screen thread is inside a pass, and the screen thread ends that pass
  at the same reading with an interval of 600 seconds. Line 511 overwrites the deadline
  that \<open>TriggerRefresh\<close> stored: the thread keeps waiting at every poll before 1600 and
  starts its next pass only then, not within the wait of \<open>TriggerRefresh\<close>. In the other
  order (the pass ends, then \<open>TriggerRefresh\<close>) the first poll starts the next pass.
\<close>

theorem TriggerRefresh_lost_during_pass:
  "passes (screen_run [Trigger 1000, PassEnds 1000 600, Poll 1000]) = 1
   \<and> passes (screen_run [Trigger 1000, PassEnds 1000 600, Poll 1000, Poll 1001]) = 1
   \<and> passes (screen_run [Trigger 1000, PassEnds 1000 600, Poll 1000, Poll 1001, Poll 1599]) = 1
   \<and> passes (screen_run
        [Trigger 1000, PassEnds 1000 600, Poll 1000, Poll 1001, Poll 1599, Poll 1600]) = 2
   \<and> passes (screen_run [PassEnds 1000 600, Trigger 1000, Poll 1000]) = 2"
  by (simp add: screen_defs)

end
